theory Spec2Isabelle
  imports Complex_Main "HOL-Library.Sublist"
begin

section \<open>The session state machine of \<^verbatim>\<open>src/src/App.tsx\<close>\<close>

text \<open>
  The theory embeds the part of the React component \<^verbatim>\<open>App\<close> that is not rendering: the
  file table and its status updates (\<^verbatim>\<open>startProcessing\<close>, \<^verbatim>\<open>pollForUpdates\<close>,
  \<^verbatim>\<open>stopProcessing\<close>), the trial quota branch of the two file handlers, and the license
  activation functions with their attempt counter.

  Conventions of the embedding.
  \<^item> A JavaScript number that the code only copies and compares (progress, loudness) is
    the \<^typ>\<open>rat\<close> that the double denotes; an optional field is an \<^typ>\<open>'a option\<close>
    with \<open>None\<close> for \<^verbatim>\<open>undefined\<close>. The code does no arithmetic on these values, and
    doubles compare as the rationals they denote. A decimal literal of the source stands for
    the double it is read as, which need not be the decimal fraction. Times are
    milliseconds, an \<^typ>\<open>int\<close>.
  \<^item> A \<^verbatim>\<open>useState\<close> cell is a record field; a handler takes the state and returns the
    state after all its \<^verbatim>\<open>set...\<close> calls. The refs that mirror a cell
    (\<^verbatim>\<open>audioFilesRef\<close>, \<^verbatim>\<open>licenseInfoRef\<close>, \<^verbatim>\<open>remainingTrialFilesRef\<close>) are fields of
    their own, brought up to date only when the effects run after a render.
  \<^item> A closure keeps what it captured: a poll loop carries the target loudness of the run
    that started it.
  \<^item> An \<^verbatim>\<open>await axios...\<close> is a parameter of the handler: the response, or the fact
    that the call threw.
  \<^item> Strings are byte lists; the literals the code compares against are ASCII.
\<close>

subsection \<open>JavaScript helpers\<close>

text \<open>\<^verbatim>\<open>a || b\<close> on optional numbers: \<^verbatim>\<open>undefined\<close> and \<^verbatim>\<open>0\<close> are falsy.\<close>

definition truthy :: "rat option \<Rightarrow> bool" where
  "truthy v = (case v of None \<Rightarrow> False | Some x \<Rightarrow> x \<noteq> 0)"

definition js_or :: "rat option \<Rightarrow> rat option \<Rightarrow> rat option" where
  "js_or a b = (if truthy a then a else b)"

text \<open>\<^verbatim>\<open>xs[i]\<close>: \<^verbatim>\<open>undefined\<close> out of range.\<close>

definition at_index :: "'a list \<Rightarrow> nat \<Rightarrow> 'a option" where
  "at_index xs i = (if i < length xs then Some (xs ! i) else None)"

text \<open>\<^verbatim>\<open>s.startsWith(p)\<close>.\<close>

definition startsWith :: "string \<Rightarrow> string \<Rightarrow> bool" where
  "startsWith s p = (take (length p) s = p)"

text \<open>\<^verbatim>\<open>s.trim()\<close>, on the ASCII white space characters.\<close>

definition isWhiteSpace :: "char \<Rightarrow> bool" where
  "isWhiteSpace c = (c = CHR '' '' \<or> c = CHR 0x09 \<or> c = CHR 0x0A \<or> c = CHR 0x0B
     \<or> c = CHR 0x0C \<or> c = CHR 0x0D)"

definition trim :: "string \<Rightarrow> string" where
  "trim s = rev (dropWhile isWhiteSpace (rev (dropWhile isWhiteSpace s)))"

text \<open>\<^verbatim>\<open>n.toString()\<close> for an array index: the decimal digits.\<close>

fun toString :: "nat \<Rightarrow> string" where
  "toString n = (if n < 10 then [''0123456789'' ! n]
                 else toString (n div 10) @ [''0123456789'' ! (n mod 10)])"

declare toString.simps [simp del]

text \<open>\<^verbatim>\<open>filePath.split('/').pop() || filePath\<close>: what follows the last slash, and the
  whole path when that is empty.\<close>

definition baseName :: "string \<Rightarrow> string" where
  "baseName filePath =
     (let lastPart = rev (takeWhile (\<lambda>c. c \<noteq> CHR ''/'') (rev filePath))
      in if lastPart = [] then filePath else lastPart)"

subsection \<open>Data\<close>

datatype status = Pending | Analyzing | Analyzed | Processing | Finalizing | Normalized
  | Completed | Stopped | Error

text \<open>An entry of \<^verbatim>\<open>data.currentFiles\<close> and of \<^verbatim>\<open>data.processedFiles\<close>, with the
  fields the code reads.\<close>

record CurrentFile =
  currentLUFS :: "rat option"

record ProcessedFile =
  name :: string
  currentLUFS :: "rat option"

text \<open>The body of a \<^verbatim>\<open>GET /progress\<close> response. \<^verbatim>\<open>fileStatuses\<close> is a JSON object
  keyed by the decimal index.\<close>

record ProgressData =
  isProcessing :: bool
  processedFiles :: "ProcessedFile list option"
  fileProgress :: "rat list option"
  fileStatuses :: "(string \<rightharpoonup> string) option"
  currentFiles :: "CurrentFile list option"

record LicenseInfo =
  status :: string
  remaining_trial_files :: int

record AudioFile =
  name :: string
  path :: string
  status :: status
  currentLUFS :: "rat option"
  newLUFS :: "rat option"
  progress :: "rat option"

text \<open>What an awaited request gives back: a response body, or an exception at the call
  site (a transport error, or a status outside 2xx).\<close>

datatype 'a response = Responded 'a | Threw

text \<open>The cells and refs of the component that the file handlers and the run read or
  write. \<open>pollingTimeoutRef\<close> is \<open>Some t\<close> while the ref holds a timer that has not yet
  fired, \<open>t\<close> being the target captured by the \<^verbatim>\<open>pollForUpdates\<close> closure the timer
  will call; every \<^verbatim>\<open>setTimeout\<close> of the loop is preceded by a \<^verbatim>\<open>clearTimeout\<close> of
  the ref, so at most one such timer is pending. \<open>fetchesInFlight\<close> lists, by the target
  of their closure, the \<^verbatim>\<open>GET /progress\<close> requests that await a response.\<close>

record Session =
  audioFiles :: "AudioFile list"
  audioFilesRef :: "AudioFile list"
  isProcessing :: bool
  shouldStopPolling :: bool
  targetLUFS :: rat
  licenseInfo :: "LicenseInfo option"
  licenseInfoRef :: "LicenseInfo option"
  remainingTrialFiles :: int
  remainingTrialFilesRef :: int
  showUpgradeModal :: bool
  pollingTimeoutRef :: "rat option"
  fetchesInFlight :: "rat list"

text \<open>The three \<^verbatim>\<open>useEffect\<close> blocks under \<^verbatim>\<open>// Keep refs updated\<close>: they run after
  a render and copy each cell into its ref.\<close>

definition runEffects :: "Session \<Rightarrow> Session" where
  "runEffects s = s\<lparr>audioFilesRef := audioFiles s, licenseInfoRef := licenseInfo s,
     remainingTrialFilesRef := remainingTrialFiles s\<rparr>"

subsection \<open>The file handlers and their quota branch\<close>

text \<open>\<^verbatim>\<open>fetchLicenseInfo\<close>, as far as it writes the two cells whose refs the handlers read: the
  parameter is \<^verbatim>\<open>response.data.success\<close> with \<^verbatim>\<open>response.data.license\<close>, or an
  exception. \<^verbatim>\<open>license.remaining_trial_files || 0\<close> is the number itself.\<close>

definition fetchLicenseInfo :: "(bool \<times> LicenseInfo) response \<Rightarrow> Session \<Rightarrow> Session" where
  "fetchLicenseInfo r s =
     (case r of
        Threw \<Rightarrow> s\<lparr>licenseInfo := None\<rparr>
      | Responded (success, license) \<Rightarrow>
          if success then
            (if LicenseInfo.status license \<noteq> [] \<and> startsWith (LicenseInfo.status license) ''Trial''
             then s\<lparr>licenseInfo := Some license,
                    remainingTrialFiles := remaining_trial_files license\<rparr>
             else s\<lparr>licenseInfo := Some license, remainingTrialFiles := 999\<rparr>)
          else s)"

text \<open>The guard of both handlers:
  \<^verbatim>\<open>licenseInfoRef.current && licenseInfoRef.current.status && ....startsWith('Trial')\<close>.\<close>

definition quotaApplies :: "LicenseInfo option \<Rightarrow> bool" where
  "quotaApplies li =
     (case li of None \<Rightarrow> False
      | Some l \<Rightarrow> LicenseInfo.status l \<noteq> [] \<and> startsWith (LicenseInfo.status l) ''Trial'')"

text \<open>\<^verbatim>\<open>Math.max(0, remainingTrialFilesRef.current - currentCount)\<close> with
  \<^verbatim>\<open>currentCount = audioFilesRef.current.length\<close>.\<close>

definition availableSlots :: "Session \<Rightarrow> int" where
  "availableSlots s = max 0 (remainingTrialFilesRef s - int (length (audioFilesRef s)))"

definition newFile :: "string \<Rightarrow> AudioFile" where
  "newFile filePath = \<lparr> name = baseName filePath, path = filePath, status = Pending,
     currentLUFS = None, newLUFS = None, progress = None \<rparr>"

text \<open>\<^verbatim>\<open>ipcRenderer.on('files-selected', ...)\<close>. \<^verbatim>\<open>slice(0, n)\<close> for \<open>n \<ge> 0\<close> is
  \<^const>\<open>take\<close>. The branch that returns early raises the upgrade modal and appends
  nothing. The handler reads the refs and appends, through
  \<^verbatim>\<open>setAudioFiles(prev => [...prev, ...newFiles])\<close>, to the list itself.\<close>

definition appendFiles :: "string list \<Rightarrow> Session \<Rightarrow> Session" where
  "appendFiles finalFilePaths s = s\<lparr>audioFiles := audioFiles s @ map newFile finalFilePaths\<rparr>"

definition files_selected :: "string list \<Rightarrow> Session \<Rightarrow> Session" where
  "files_selected filePaths s =
     (if quotaApplies (licenseInfoRef s) then
        (if int (length filePaths) > availableSlots s then
           (if availableSlots s > 0
            then appendFiles (take (nat (availableSlots s)) filePaths) s
            else s\<lparr>showUpgradeModal := True\<rparr>)
         else appendFiles filePaths s)
      else appendFiles filePaths s)"

text \<open>\<^verbatim>\<open>ipcRenderer.on('file-dropped', ...)\<close>.\<close>

definition file_dropped :: "string \<Rightarrow> Session \<Rightarrow> Session" where
  "file_dropped filePath s =
     (if quotaApplies (licenseInfoRef s) then
        (if availableSlots s \<le> 0
         then s\<lparr>showUpgradeModal := True\<rparr>
         else s\<lparr>audioFiles := audioFiles s @ [newFile filePath]\<rparr>)
      else s\<lparr>audioFiles := audioFiles s @ [newFile filePath]\<rparr>)"

subsection \<open>Stop and start\<close>

text \<open>The function mapped over the list by \<^verbatim>\<open>stopProcessing\<close>.\<close>

definition stopRule :: "AudioFile \<Rightarrow> AudioFile" where
  "stopRule file =
     (if status file = Completed \<or> status file = Normalized then file
      else file\<lparr>status := Stopped, progress := Some 0, currentLUFS := currentLUFS file,
             newLUFS := None\<rparr>)"

text \<open>\<^verbatim>\<open>stopProcessing\<close>. The parameter is what \<^verbatim>\<open>await axios.post('/stop')\<close> gives: a
  body whose \<^verbatim>\<open>success\<close> is true or false, or an exception. The two flags are set before
  the request; the update of the list stands after the \<^verbatim>\<open>await\<close> inside the
  \<^verbatim>\<open>try\<close>, so the \<^verbatim>\<open>catch\<close> branch does not reach it. Neither branch clears
  \<^verbatim>\<open>pollingTimeoutRef\<close>.\<close>

definition stopProcessing :: "bool response \<Rightarrow> Session \<Rightarrow> Session" where
  "stopProcessing r s =
     (let s1 = s\<lparr>shouldStopPolling := True, isProcessing := False\<rparr>
      in case r of
           Responded success \<Rightarrow> s1\<lparr>audioFiles := map stopRule (audioFiles s1)\<rparr>
         | Threw \<Rightarrow> s1\<lparr>shouldStopPolling := True, isProcessing := False\<rparr>)"

text \<open>The reset at the head of \<^verbatim>\<open>startProcessing\<close>.\<close>

definition resetFile :: "AudioFile \<Rightarrow> AudioFile" where
  "resetFile file = file\<lparr>status := Pending, progress := Some 0, currentLUFS := None,
     newLUFS := None\<rparr>"

subsection \<open>The poll cycle\<close>

definition fileProgressAt :: "ProgressData \<Rightarrow> nat \<Rightarrow> rat" where
  "fileProgressAt d i =
     (let fileProgressArray = (case fileProgress d of None \<Rightarrow> [] | Some a \<Rightarrow> a)
      in case js_or (at_index fileProgressArray i) (Some 0) of None \<Rightarrow> 0 | Some p \<Rightarrow> p)"

definition fileStatusAt :: "ProgressData \<Rightarrow> nat \<Rightarrow> string" where
  "fileStatusAt d i =
     (let statuses = (case fileStatuses d of None \<Rightarrow> Map.empty | Some m \<Rightarrow> m)
      in case statuses (toString i) of
           None \<Rightarrow> ''pending''
         | Some t \<Rightarrow> if t = [] then ''pending'' else t)"

definition realCurrentLUFSAt :: "ProgressData \<Rightarrow> nat \<Rightarrow> AudioFile \<Rightarrow> rat option" where
  "realCurrentLUFSAt d i file =
     (let files = (case currentFiles d of None \<Rightarrow> [] | Some a \<Rightarrow> a)
      in js_or (case at_index files i of None \<Rightarrow> None | Some c \<Rightarrow> CurrentFile.currentLUFS c)
           (currentLUFS file))"

text \<open>The source's literal \<^verbatim>\<open>0.95\<close> is the double nearest to 95/100, which is
  4278419646001971 / 2^52 and lies below 95/100; \<^verbatim>\<open>0.97\<close>, used in a scenario, is
  4368491638549381 / 2^52. The literals \<^verbatim>\<open>0.5\<close> and \<^verbatim>\<open>1.0\<close> are exact.\<close>

definition double_0_95 :: rat where
  "double_0_95 = 4278419646001971 / 4503599627370496"

definition double_0_97 :: rat where
  "double_0_97 = 4368491638549381 / 4503599627370496"

text \<open>The \<^verbatim>\<open>switch (fileStatus)\<close> with its default branch.\<close>

definition mappedStatus :: "ProgressData \<Rightarrow> string \<Rightarrow> rat \<Rightarrow> rat option \<Rightarrow> status" where
  "mappedStatus d fileStatus fp realCurrentLUFS =
     (if fileStatus = ''Analyzing'' then Analyzing
      else if fileStatus = ''Normalizing'' then
        (if fp \<ge> double_0_95 then Finalizing else Processing)
      else if fileStatus = ''completed'' then Completed
      else if fileStatus = ''error'' then Error
      else if truthy realCurrentLUFS then
        (if fp \<ge> 1 \<and> \<not> ProgressData.isProcessing d then Normalized
         else if fileStatus = ''Normalizing'' \<or> fp > 1 / 2 then
           (if fp \<ge> double_0_95 then Finalizing else Processing)
         else Analyzed)
      else (if fp > 0 then Analyzing else Pending))"

text \<open>The body of the \<^verbatim>\<open>prev.map((file, index) => ...)\<close> of an active cycle.
  \<open>target\<close> is the \<^verbatim>\<open>targetLUFS\<close> that the closure of \<^verbatim>\<open>pollForUpdates\<close> captured
  when its run was started.\<close>

definition updateFile :: "rat \<Rightarrow> ProgressData \<Rightarrow> nat \<Rightarrow> AudioFile \<Rightarrow> AudioFile" where
  "updateFile target d i file =
     (let fp = fileProgressAt d i;
          realCurrentLUFS = realCurrentLUFSAt d i file;
          ms = mappedStatus d (fileStatusAt d i) fp realCurrentLUFS
      in file\<lparr>status := ms, progress := Some fp, currentLUFS := realCurrentLUFS,
              newLUFS := (if ms = Finalizing \<or> ms = Normalized \<or> ms = Completed
                          then Some target else newLUFS file)\<rparr>)"

definition activeUpdate :: "rat \<Rightarrow> ProgressData \<Rightarrow> AudioFile list \<Rightarrow> AudioFile list" where
  "activeUpdate target d files =
     map (\<lambda>(i, file). updateFile target d i file) (enumerate 0 files)"

text \<open>The two updates of a cycle that finds \<^verbatim>\<open>data.isProcessing\<close> false: with a
  non-empty \<^verbatim>\<open>data.processedFiles\<close> the measured loudness is looked up by name
  (\<^verbatim>\<open>processedFiles.find(pf => pf.name === file.name)\<close> is \<^const>\<open>find\<close>); without
  one the entry keeps its own.\<close>

definition completeFile :: "rat \<Rightarrow> ProcessedFile list \<Rightarrow> AudioFile \<Rightarrow> AudioFile" where
  "completeFile target pfs file =
     (let processedFile = find (\<lambda>pf. ProcessedFile.name pf = name file) pfs;
          measured = (case processedFile of None \<Rightarrow> None
                      | Some pf \<Rightarrow> ProcessedFile.currentLUFS pf)
      in file\<lparr>status := Completed, progress := Some 1,
              currentLUFS := js_or (js_or measured (currentLUFS file)) (Some 0),
              newLUFS := Some target\<rparr>)"

definition completeFallback :: "rat \<Rightarrow> AudioFile \<Rightarrow> AudioFile" where
  "completeFallback target file =
     file\<lparr>status := Completed, progress := Some 1,
          currentLUFS := js_or (currentLUFS file) (Some 0), newLUFS := Some target\<rparr>"

definition finalUpdate :: "rat \<Rightarrow> ProgressData \<Rightarrow> AudioFile list \<Rightarrow> AudioFile list" where
  "finalUpdate target d files =
     (case processedFiles d of
        None \<Rightarrow> map (completeFallback target) files
      | Some pfs \<Rightarrow>
          if length pfs > 0 then map (completeFile target pfs) files
          else map (completeFallback target) files)"

text \<open>\<^verbatim>\<open>pollForUpdates\<close> of a closure that captured \<open>target\<close>, from the moment its
  \<^verbatim>\<open>GET /progress\<close> settles. It reads neither \<^verbatim>\<open>shouldStopPolling\<close> nor the statuses
  it overwrites. A cycle that finds the run active, and one whose request threw, clear the
  timer in \<^verbatim>\<open>pollingTimeoutRef\<close> and put their own there.\<close>

definition pollForUpdates :: "rat \<Rightarrow> ProgressData response \<Rightarrow> Session \<Rightarrow> Session" where
  "pollForUpdates target r s =
     (case r of
        Threw \<Rightarrow> s\<lparr>pollingTimeoutRef := Some target\<rparr>
      | Responded d \<Rightarrow>
          if \<not> ProgressData.isProcessing d
          then s\<lparr>isProcessing := False, audioFiles := finalUpdate target d (audioFiles s)\<rparr>
          else s\<lparr>audioFiles := activeUpdate target d (audioFiles s),
                 pollingTimeoutRef := Some target\<rparr>)"

text \<open>\<^verbatim>\<open>startProcessing\<close>. The parameter says whether \<^verbatim>\<open>POST /process\<close> returned (its
  body is not inspected) or threw. When it returned, a \<^verbatim>\<open>pollForUpdates\<close> closure is
  made, which captures the \<^verbatim>\<open>targetLUFS\<close> of the moment, and called: its first request
  is in flight. Timers and requests of earlier runs are left as they are.\<close>

definition startProcessing :: "unit response \<Rightarrow> Session \<Rightarrow> Session" where
  "startProcessing r s =
     (if audioFiles s = [] then s
      else
        let s1 = s\<lparr>shouldStopPolling := False, isProcessing := True,
                   audioFiles := map resetFile (audioFiles s)\<rparr>
        in case r of
             Responded _ \<Rightarrow> s1\<lparr>fetchesInFlight := fetchesInFlight s1 @ [targetLUFS s]\<rparr>
           | Threw \<Rightarrow> s1\<lparr>isProcessing := False\<rparr>)"

text \<open>\<^verbatim>\<open>handleLUFSChange\<close> with a preset: the selector is disabled while
  \<^verbatim>\<open>isProcessing\<close> is true.\<close>

definition selectTarget :: "rat \<Rightarrow> Session \<Rightarrow> Session" where
  "selectTarget v s = (if isProcessing s then s else s\<lparr>targetLUFS := v\<rparr>)"

text \<open>What can happen to a session, one event of the single-threaded event loop at a time.
  A timer that fires calls its closure, which starts a request; the request in flight at
  position \<open>k\<close> settles and the rest of its \<^verbatim>\<open>pollForUpdates\<close> runs. An event that is
  not enabled (no timer pending, no such request) leaves the state as it is.\<close>

datatype event =
    Start "unit response"
  | Stop "bool response"
  | TimerFires
  | FetchSettles nat "ProgressData response"
  | FilesSelected "string list"
  | FileDropped string
  | SelectTarget rat
  | LicenseFetched "(bool \<times> LicenseInfo) response"
  | EffectsRun


definition step :: "event \<Rightarrow> Session \<Rightarrow> Session" where
  "step e s =
     (case e of
        Start r \<Rightarrow> startProcessing r s
      | Stop r \<Rightarrow> stopProcessing r s
      | TimerFires \<Rightarrow>
          (case pollingTimeoutRef s of
             None \<Rightarrow> s
           | Some t \<Rightarrow> s\<lparr>pollingTimeoutRef := None,
                          fetchesInFlight := fetchesInFlight s @ [t]\<rparr>)
      | FetchSettles k r \<Rightarrow>
          if k < length (fetchesInFlight s)
          then pollForUpdates (fetchesInFlight s ! k) r
                 (s\<lparr>fetchesInFlight := take k (fetchesInFlight s)
                                          @ drop (Suc k) (fetchesInFlight s)\<rparr>)
          else s
      | FilesSelected ps \<Rightarrow> files_selected ps s
      | FileDropped p \<Rightarrow> file_dropped p s
      | SelectTarget v \<Rightarrow> selectTarget v s
      | LicenseFetched r \<Rightarrow> fetchLicenseInfo r s
      | EffectsRun \<Rightarrow> runEffects s)"

definition run :: "event list \<Rightarrow> Session \<Rightarrow> Session" where
  "run es s = fold step es s"

subsection \<open>License activation\<close>

text \<open>The cells of the activation dialogue. \<open>activationAttempts\<close> counts failures;
  \<open>lockoutUntil\<close> is a time in milliseconds, \<open>0\<close> for none.\<close>

record Activation =
  licenseKey :: string
  isActivating :: bool
  activationError :: string
  lastActivationAttempt :: int
  activationAttempts :: nat
  lockoutUntil :: int
  lockoutCountdown :: nat

text \<open>The \<^verbatim>\<open>onChange\<close> of the key input.\<close>

definition typeKey :: "string \<Rightarrow> Activation \<Rightarrow> Activation" where
  "typeKey key a = a\<lparr>licenseKey := key, activationError := []\<rparr>"

definition isValidLicenseKeyFormat :: "string \<Rightarrow> bool" where
  "isValidLicenseKeyFormat key = (startsWith key ''RAFILIS-'' \<and> length key \<ge> 20)"

text \<open>\<^verbatim>\<open>canAttemptActivation\<close> at the time \<open>now\<close>: the answer and the state after its
  \<^verbatim>\<open>set...\<close> calls.\<close>

definition canAttemptActivation :: "int \<Rightarrow> Activation \<Rightarrow> bool \<times> Activation" where
  "canAttemptActivation now a =
     (if now < lockoutUntil a then (False, a)
      else if now \<ge> lockoutUntil a \<and> activationAttempts a \<ge> 3
        then (True, a\<lparr>activationAttempts := 0, lockoutUntil := 0\<rparr>)
        else (True, a))"

text \<open>What \<^verbatim>\<open>await axios.post('/license/activate')\<close> gives: a body with
  \<^verbatim>\<open>success\<close> true, a body with \<^verbatim>\<open>success\<close> false and perhaps an
  \<^verbatim>\<open>error\<close> text, or an exception of one of the kinds the \<^verbatim>\<open>catch\<close> block tells
  apart.\<close>

datatype thrown = NetworkError | BadRequest | OtherAxiosError | NotAxiosError

datatype activation_response = Accepted | Rejected "string option" | Thrown thrown

definition thrownMessage :: "thrown \<Rightarrow> string" where
  "thrownMessage e =
     (case e of
        NetworkError \<Rightarrow> ''Network error. Please check your connection''
      | BadRequest \<Rightarrow> ''Invalid license key''
      | OtherAxiosError \<Rightarrow> ''Server error. Please try again later''
      | NotAxiosError \<Rightarrow> ''Activation failed. Please try again'')"

text \<open>Both failure branches of \<^verbatim>\<open>activateLicense\<close>: \<open>closure\<close> is the state the
  handler was created with, whose \<^verbatim>\<open>activationAttempts\<close> the branch reads; \<open>later\<close>
  is \<^verbatim>\<open>Date.now()\<close> when the branch runs.\<close>

definition failedAttempt :: "Activation \<Rightarrow> int \<Rightarrow> string \<Rightarrow> Activation \<Rightarrow> Activation" where
  "failedAttempt closure later message a =
     (let newAttempts = activationAttempts closure + 1
      in if newAttempts \<ge> 3
         then a\<lparr>activationAttempts := newAttempts, lockoutUntil := later + 60 * 1000,
                activationError :=
                  ''Too many failed attempts. Please wait 1 minute before trying again''\<rparr>
         else a\<lparr>activationAttempts := newAttempts, activationError := message\<rparr>)"

text \<open>\<^verbatim>\<open>activateLicense\<close>, called at the time \<open>now\<close>; the request, when one is made,
  settles with \<open>r\<close> at the time \<open>later\<close>. The result is the state and whether the
  request was made.\<close>

definition activateLicense ::
  "int \<Rightarrow> activation_response \<Rightarrow> int \<Rightarrow> Activation \<Rightarrow> Activation \<times> bool" where
  "activateLicense now r later a =
     (let a1 = a\<lparr>activationError := []\<rparr>
      in if trim (licenseKey a) = [] then
           (a1\<lparr>activationError := ''Please enter a license key''\<rparr>, False)
         else if \<not> isValidLicenseKeyFormat (licenseKey a) then
           (a1\<lparr>activationError := ''Please enter a valid license key.''\<rparr>, False)
         else
           (case canAttemptActivation now a1 of
              (False, a2) \<Rightarrow>
                (a2\<lparr>activationError := ''Too many attempts. Please wait ''
                    @ toString (lockoutCountdown a) @ '' seconds before trying again''\<rparr>, False)
            | (True, a2) \<Rightarrow>
                (let a3 = a2\<lparr>isActivating := True, lastActivationAttempt := now\<rparr>;
                     a4 = (case r of
                             Accepted \<Rightarrow>
                               a3\<lparr>activationAttempts := 0, lockoutUntil := 0,
                                  licenseKey := [], activationError := []\<rparr>
                           | Rejected err \<Rightarrow>
                               failedAttempt a later
                                 (case err of None \<Rightarrow> ''Activation failed''
                                  | Some m \<Rightarrow> if m = [] then ''Activation failed'' else m) a3
                           | Thrown e \<Rightarrow> failedAttempt a later (thrownMessage e) a3)
                 in (a4\<lparr>isActivating := False\<rparr>, True))))"

text \<open>The countdown effect: while \<^verbatim>\<open>lockoutUntil > 0\<close> an interval runs this every
  second. \<^verbatim>\<open>Math.ceil((lockoutUntil - now) / 1000)\<close> on integers is a ceiling
  division.\<close>

definition countdownTick :: "int \<Rightarrow> Activation \<Rightarrow> Activation" where
  "countdownTick now a =
     (if lockoutUntil a > 0 then
        (let remaining = nat (max 0 (- ((now - lockoutUntil a) div 1000)))
         in if remaining = 0
            then a\<lparr>lockoutCountdown := remaining, lockoutUntil := 0, activationAttempts := 0,
                   activationError := []\<rparr>
            else a\<lparr>lockoutCountdown := remaining\<rparr>)
      else a)"

text \<open>The user types a key and presses Activate at the time \<open>now\<close>; the state after the
  handler has run.\<close>

definition attempt ::
  "string \<Rightarrow> int \<Rightarrow> activation_response \<Rightarrow> int \<Rightarrow> Activation \<Rightarrow> Activation" where
  "attempt key now r later a = fst (activateLicense now r later (typeKey key a))"

subsection \<open>Predicates on entries and on poll loops\<close>




subsection \<open>Concrete sessions\<close>

text \<open>The state of the component when it mounts, two license snapshots, and sessions
  reached from the mounted state by the handlers above, each rendered (its effects run)
  unless said otherwise.\<close>

definition freshSession :: Session where
  "freshSession = \<lparr> audioFiles = [], audioFilesRef = [], isProcessing = False,
     shouldStopPolling = False, targetLUFS = -12, licenseInfo = None, licenseInfoRef = None,
     remainingTrialFiles = 10, remainingTrialFilesRef = 10, showUpgradeModal = False,
     pollingTimeoutRef = None, fetchesInFlight = [] \<rparr>"

definition trialLicense :: LicenseInfo where
  "trialLicense = \<lparr> LicenseInfo.status = ''Trial'', remaining_trial_files = 3 \<rparr>"

definition proLicense :: LicenseInfo where
  "proLicense = \<lparr> LicenseInfo.status = ''Pro'', remaining_trial_files = 0 \<rparr>"

definition oneFileSession :: Session where
  "oneFileSession = runEffects (files_selected [''/music/a.mp3''] freshSession)"

definition trialSession :: Session where
  "trialSession = runEffects (fetchLicenseInfo (Responded (True, trialLicense)) oneFileSession)"

definition proSession :: Session where
  "proSession = runEffects (fetchLicenseInfo (Responded (True, proLicense)) oneFileSession)"

text \<open>The trial session after a \<^verbatim>\<open>files-selected\<close> event with two paths, before the
  next render: the list has three entries, \<^verbatim>\<open>audioFilesRef\<close> still the one.\<close>

definition burstSession :: Session where
  "burstSession = files_selected [''/music/b.mp3'', ''/music/c.mp3''] trialSession"

text \<open>A file in the middle of its normalization and a session that holds it.\<close>

definition songA :: AudioFile where
  "songA = \<lparr> name = ''a.mp3'', path = ''/music/a.mp3'', status = Processing,
     currentLUFS = Some (-9), newLUFS = None, progress = Some (1 / 2) \<rparr>"

definition sessionA :: Session where
  "sessionA = \<lparr> audioFiles = [songA], audioFilesRef = [songA], isProcessing = True,
     shouldStopPolling = False, targetLUFS = -12, licenseInfo = None, licenseInfoRef = None,
     remainingTrialFiles = 10, remainingTrialFilesRef = 10, showUpgradeModal = False,
     pollingTimeoutRef = Some (-12), fetchesInFlight = [] \<rparr>"

text \<open>Progress responses of a backend that is still at work.\<close>

definition snapshot :: "string \<Rightarrow> rat \<Rightarrow> ProgressData" where
  "snapshot token p = \<lparr> ProgressData.isProcessing = True, processedFiles = None,
     fileProgress = Some [p], fileStatuses = Some [''0'' \<mapsto> token], currentFiles = None \<rparr>"

text \<open>The activation cells when the component mounts, and the state after three
  failed attempts with a well-formed key: a rejection at 1200 ms, a network error at
  2300 ms and a rejection at 3400 ms.\<close>

definition initialActivation :: Activation where
  "initialActivation = \<lparr> licenseKey = [], isActivating = False, activationError = [],
     lastActivationAttempt = 0, activationAttempts = 0, lockoutUntil = 0,
     lockoutCountdown = 0 \<rparr>"

definition lockedOut :: Activation where
  "lockedOut =
     attempt ''RAFILIS-AAAAAAAAAAAA'' 3000 (Rejected None) 3400
       (attempt ''RAFILIS-AAAAAAAAAAAA'' 2000 (Thrown NetworkError) 2300
         (attempt ''RAFILIS-AAAAAAAAAAAA'' 1000 (Rejected (Some ''Unknown key'')) 1200
            initialActivation))"

section \<open>Properties\<close>

lemmas session_defs = run_def step_def startProcessing_def stopProcessing_def
  pollForUpdates_def activeUpdate_def updateFile_def resetFile_def stopRule_def
  fileProgressAt_def fileStatusAt_def realCurrentLUFSAt_def mappedStatus_def js_or_def
  truthy_def at_index_def finalUpdate_def completeFile_def completeFallback_def newFile_def
  baseName_def files_selected_def file_dropped_def appendFiles_def availableSlots_def
  quotaApplies_def startsWith_def fetchLicenseInfo_def runEffects_def selectTarget_def
  double_0_95_def double_0_97_def enumerate_eq_zip Let_def

lemmas example_defs = freshSession_def trialLicense_def proLicense_def oneFileSession_def
  trialSession_def proSession_def burstSession_def songA_def sessionA_def snapshot_def

lemmas activation_defs = attempt_def activateLicense_def typeKey_def canAttemptActivation_def
  failedAttempt_def isValidLicenseKeyFormat_def startsWith_def trim_def isWhiteSpace_def
  thrownMessage_def Let_def

subsection \<open>Stopping\<close>

lemma stopRule_idem: "stopRule (stopRule file) = stopRule file"
  by (simp add: stopRule_def)

lemma stopProcessing_responded:
  "audioFiles (stopProcessing (Responded b) s) = map stopRule (audioFiles s)"
  by (simp add: stopProcessing_def)

lemma stopProcessing_threw: "audioFiles (stopProcessing Threw s) = audioFiles s"
  by (simp add: stopProcessing_def)

lemma stopRule_fields:
  "status (stopRule file) = (if status file \<in> {Completed, Normalized} then status file else Stopped)
   \<and> progress (stopRule file) = (if status file \<in> {Completed, Normalized} then progress file else Some 0)
   \<and> newLUFS (stopRule file) = (if status file \<in> {Completed, Normalized} then newLUFS file else None)
   \<and> currentLUFS (stopRule file) = currentLUFS file
   \<and> name (stopRule file) = name file \<and> path (stopRule file) = path file"
  by (simp add: stopRule_def)

text \<open>
  C7. The update that \<^verbatim>\<open>stopProcessing\<close> applies to the list is idempotent: mapped a
  second time it returns the entries of the first, field by field. On the handler: once a
  stop whose request returned has updated the list, a further stop leaves every entry as
  it is, whatever its own request does.
\<close>

theorem stop_twice_same_entries:
  "map stopRule (map stopRule files) = map stopRule files \<and>
   audioFiles (stopProcessing r (stopProcessing (Responded b) s))
     = audioFiles (stopProcessing (Responded b) s)"
  by (cases r) (simp_all add: stopProcessing_def stopRule_idem)

text \<open>
  C2. The claim asks for the stop rule under every outcome of \<^verbatim>\<open>POST /stop\<close>. When the
  request throws, the handler leaves through its \<^verbatim>\<open>catch\<close> block, which sets the two
  flags again and never reaches the update of the list: the file that was
  \<open>Processing\<close> stays \<open>Processing\<close>. With a body, even one whose \<^verbatim>\<open>success\<close> is
  false, the same file becomes \<open>Stopped\<close> with progress 0.
\<close>

theorem stop_after_transport_error_keeps_processing:
  "audioFiles (stopProcessing Threw sessionA) = [songA] \<and> status songA = Processing \<and>
   audioFiles (stopProcessing (Responded False) sessionA)
     = [songA\<lparr>status := Stopped, progress := Some 0, newLUFS := None\<rparr>]"
  by (simp add: stopProcessing_def sessionA_def songA_def stopRule_def)

text \<open>
  C1. The claim asks that no response processed after a stop moves a \<open>Stopped\<close> entry
  back to a status outside \<open>Stopped\<close>, \<open>Completed\<close>, \<open>Normalized\<close>.
  \<^verbatim>\<open>stopProcessing\<close> sets \<^verbatim>\<open>shouldStopPolling\<close>, but \<^verbatim>\<open>pollForUpdates\<close> does not read
  it, and the pending timer is not cleared. From the mounted component: one file is
  selected and a run is started; the first response schedules the next cycle; the stop,
  acknowledged by the backend, forces the entry to \<open>Stopped\<close>; then the timer fires and
  its response, from a backend that still reports the run, sets the entry to
  \<open>Analyzing\<close>. The same happens to the request that was in flight when stop was
  pressed.
\<close>

theorem late_poll_overwrites_stopped:
  "map status (audioFiles (run
      [Start (Responded ()), FetchSettles 0 (Responded (snapshot ''Analyzing'' (1 / 8))),
       Stop (Responded True)] oneFileSession)) = [Stopped] \<and>
   map status (audioFiles (run
      [Start (Responded ()), FetchSettles 0 (Responded (snapshot ''Analyzing'' (1 / 8))),
       Stop (Responded True), TimerFires,
       FetchSettles 0 (Responded (snapshot ''Analyzing'' (3 / 8)))] oneFileSession))
     = [Analyzing] \<and>
   map status (audioFiles (run
      [Start (Responded ()), Stop (Responded True),
       FetchSettles 0 (Responded (snapshot ''Analyzing'' (3 / 8)))] oneFileSession))
     = [Analyzing]"
  by (simp add: session_defs example_defs toString.simps)

subsection \<open>Admission of offered files\<close>

lemma path_newFile: "path \<circ> newFile = id"
  by (rule ext) (simp add: newFile_def)

lemma status_newFile: "status \<circ> newFile = (\<lambda>p. Pending)"
  by (rule ext) (simp add: newFile_def)

lemma fetchLicenseInfo_trial:
  "quotaApplies (Some l) \<Longrightarrow>
   licenseInfo (fetchLicenseInfo (Responded (True, l)) s) = Some l \<and>
   remainingTrialFiles (fetchLicenseInfo (Responded (True, l)) s) = remaining_trial_files l"
  by (simp add: fetchLicenseInfo_def quotaApplies_def)

text \<open>What \<^verbatim>\<open>files-selected\<close> does under a trial snapshot, in terms of the numbers it
  reads: \<open>r\<close> from \<^verbatim>\<open>remainingTrialFilesRef\<close> and the count \<open>c\<close> from
  \<^verbatim>\<open>audioFilesRef\<close>. The paths of the appended entries are all of \<open>P\<close>, the first
  \<open>max 0 (r - c)\<close> of \<open>P\<close>, or none with the upgrade modal raised.\<close>

lemma files_selected_trial:
  assumes "quotaApplies (licenseInfoRef s)"
    and "remainingTrialFilesRef s = r" and "int (length (audioFilesRef s)) = c"
  shows "(int (length P) \<le> max 0 (r - c) \<longrightarrow>
            map path (audioFiles (files_selected P s)) = map path (audioFiles s) @ P)
       \<and> (0 < max 0 (r - c) \<and> max 0 (r - c) < int (length P) \<longrightarrow>
            map path (audioFiles (files_selected P s))
              = map path (audioFiles s) @ take (nat (max 0 (r - c))) P)
       \<and> (max 0 (r - c) = 0 \<and> P \<noteq> [] \<longrightarrow>
            audioFiles (files_selected P s) = audioFiles s
            \<and> showUpgradeModal (files_selected P s))"
proof -
  have av: "availableSlots s = max 0 (r - c)"
    using assms by (simp add: availableSlots_def)
  have all: "int (length P) \<le> max 0 (r - c) \<Longrightarrow>
      map path (audioFiles (files_selected P s)) = map path (audioFiles s) @ P"
    using assms(1) av by (auto simp add: files_selected_def appendFiles_def path_newFile)
  have part: "0 < max 0 (r - c) \<Longrightarrow> max 0 (r - c) < int (length P) \<Longrightarrow>
      map path (audioFiles (files_selected P s))
        = map path (audioFiles s) @ take (nat (max 0 (r - c))) P"
    using assms(1) av by (simp add: files_selected_def appendFiles_def path_newFile)
  have none: "max 0 (r - c) = 0 \<Longrightarrow> P \<noteq> [] \<Longrightarrow>
      audioFiles (files_selected P s) = audioFiles s \<and> showUpgradeModal (files_selected P s)"
    using assms(1) av by (simp add: files_selected_def appendFiles_def)
  from all part none show ?thesis by blast
qed

text \<open>
  C4. The claim bounds what is appended by \<open>max 0 (r - c)\<close> with \<open>c\<close> the current
  number of entries. The handler takes its count from \<^verbatim>\<open>audioFilesRef\<close>, which the
  effects bring up to date only after the next render, and appends to the list itself.
  A trial snapshot with 3 remaining files and a rendered list of one entry: a first
  \<^verbatim>\<open>files-selected\<close> event with two paths fills the list to three; a second event,
  arriving before the render, still counts one entry, so its path is appended as the
  fourth entry and the upgrade modal is not raised. Had the effects run in between, the
  same event would have appended nothing and raised the modal.
\<close>

theorem stale_count_admits_beyond_quota:
  "quotaApplies (licenseInfoRef burstSession) \<and> remainingTrialFilesRef burstSession = 3
   \<and> map path (audioFiles burstSession) = [''/music/a.mp3'', ''/music/b.mp3'', ''/music/c.mp3'']
   \<and> length (audioFilesRef burstSession) = 1
   \<and> map path (audioFiles (files_selected [''/music/d.mp3''] burstSession))
       = [''/music/a.mp3'', ''/music/b.mp3'', ''/music/c.mp3'', ''/music/d.mp3'']
   \<and> showUpgradeModal (files_selected [''/music/d.mp3''] burstSession) = False
   \<and> map path (audioFiles (files_selected [''/music/d.mp3''] (runEffects burstSession)))
       = [''/music/a.mp3'', ''/music/b.mp3'', ''/music/c.mp3'']
   \<and> showUpgradeModal (files_selected [''/music/d.mp3''] (runEffects burstSession)) = True"
  by (simp add: session_defs example_defs)

text \<open>
  C10. When the license info that the handlers read (\<^verbatim>\<open>licenseInfoRef.current\<close>) is null,
  or its status does not start with \<open>Trial\<close>, both handlers append an entry for every
  path they are offered, in the order offered and each carrying its path, and change
  nothing else, whatever the list and the remaining-files cell hold.
\<close>

theorem no_quota_without_trial_snapshot:
  assumes "licenseInfoRef s = None \<or>
     (\<exists>l. licenseInfoRef s = Some l \<and> \<not> startsWith (LicenseInfo.status l) ''Trial'')"
  shows "files_selected P s = s\<lparr>audioFiles := audioFiles s @ map newFile P\<rparr>
       \<and> file_dropped p s = s\<lparr>audioFiles := audioFiles s @ [newFile p]\<rparr>
       \<and> map path (audioFiles (files_selected P s)) = map path (audioFiles s) @ P
       \<and> map path (audioFiles (file_dropped p s)) = map path (audioFiles s) @ [p]
       \<and> map status (drop (length (audioFiles s)) (audioFiles (files_selected P s)))
           = replicate (length P) Pending"
proof -
  from assms have nq: "\<not> quotaApplies (licenseInfoRef s)"
    by (auto simp: quotaApplies_def)
  then have fs: "files_selected P s = s\<lparr>audioFiles := audioFiles s @ map newFile P\<rparr>"
    by (simp add: files_selected_def appendFiles_def)
  from nq have fd: "file_dropped p s = s\<lparr>audioFiles := audioFiles s @ [newFile p]\<rparr>"
    by (simp add: file_dropped_def)
  have p1: "map path (audioFiles (files_selected P s)) = map path (audioFiles s) @ P"
    by (simp add: fs path_newFile)
  have p2: "map path (audioFiles (file_dropped p s)) = map path (audioFiles s) @ [p]"
    by (simp add: fd newFile_def)
  have p3: "map status (drop (length (audioFiles s)) (audioFiles (files_selected P s)))
           = replicate (length P) Pending"
    by (simp add: fs status_newFile map_replicate_const)
  from fs fd p1 p2 p3 show ?thesis by blast
qed

text \<open>Before any snapshot has arrived, with the default of 10 remaining files, twelve
  offered paths are all appended; under a \<open>Pro\<close> snapshot both handlers append after the
  entry that was there.\<close>

theorem no_quota_without_trial_snapshot_witness:
  "licenseInfoRef freshSession = None
   \<and> map path (audioFiles (files_selected (replicate 12 ''/x/b.mp3'') freshSession))
       = replicate 12 ''/x/b.mp3''
   \<and> (\<exists>l. licenseInfoRef proSession = Some l \<and> \<not> startsWith (LicenseInfo.status l) ''Trial'')
   \<and> map path (audioFiles (files_selected [''/x/b.mp3'', ''/x/c.mp3''] proSession))
       = [''/music/a.mp3'', ''/x/b.mp3'', ''/x/c.mp3'']
   \<and> map path (audioFiles (file_dropped ''/x/d.mp3'' proSession))
       = [''/music/a.mp3'', ''/x/d.mp3'']"
proof -
  have n: "licenseInfoRef freshSession = None"
    by (simp add: example_defs)
  have e: "map path (audioFiles freshSession) = []"
    by (simp add: example_defs)
  have p: "\<exists>l. licenseInfoRef proSession = Some l \<and> \<not> startsWith (LicenseInfo.status l) ''Trial''"
    by (simp add: session_defs example_defs)
  have o: "map path (audioFiles proSession) = [''/music/a.mp3'']"
    by (simp add: session_defs example_defs)
  from n have "licenseInfoRef freshSession = None \<or>
     (\<exists>l. licenseInfoRef freshSession = Some l \<and> \<not> startsWith (LicenseInfo.status l) ''Trial'')"
    by simp
  from no_quota_without_trial_snapshot [OF this, where P = "replicate 12 ''/x/b.mp3''"]
  have "map path (audioFiles (files_selected (replicate 12 ''/x/b.mp3'') freshSession))
       = map path (audioFiles freshSession) @ replicate 12 ''/x/b.mp3''"
    by blast
  with e have a: "map path (audioFiles (files_selected (replicate 12 ''/x/b.mp3'') freshSession))
       = replicate 12 ''/x/b.mp3''"
    by simp
  from p have q: "licenseInfoRef proSession = None \<or>
     (\<exists>l. licenseInfoRef proSession = Some l \<and> \<not> startsWith (LicenseInfo.status l) ''Trial'')"
    by simp
  from no_quota_without_trial_snapshot [OF q, where P = "[''/x/b.mp3'', ''/x/c.mp3'']"]
  have "map path (audioFiles (files_selected [''/x/b.mp3'', ''/x/c.mp3''] proSession))
       = map path (audioFiles proSession) @ [''/x/b.mp3'', ''/x/c.mp3'']"
    by blast
  with o have b: "map path (audioFiles (files_selected [''/x/b.mp3'', ''/x/c.mp3''] proSession))
       = [''/music/a.mp3'', ''/x/b.mp3'', ''/x/c.mp3'']"
    by simp
  from no_quota_without_trial_snapshot [OF q, where p = "''/x/d.mp3''"]
  have "map path (audioFiles (file_dropped ''/x/d.mp3'' proSession))
       = map path (audioFiles proSession) @ [''/x/d.mp3'']"
    by blast
  with o have c: "map path (audioFiles (file_dropped ''/x/d.mp3'' proSession))
       = [''/music/a.mp3'', ''/x/d.mp3'']"
    by simp
  from n p a b c show ?thesis by blast
qed

subsection \<open>The active poll cycle\<close>

lemma activeUpdate_length [simp]: "length (activeUpdate t d files) = length files"
  by (simp add: activeUpdate_def)

lemma activeUpdate_nth:
  "i < length files \<Longrightarrow> activeUpdate t d files ! i = updateFile t d i (files ! i)"
  by (simp add: activeUpdate_def nth_enumerate_eq)

lemma fileProgressAt_Some:
  "fileProgress d = Some ps \<Longrightarrow> fileProgressAt d i = (if i < length ps then ps ! i else 0)"
  by (simp add: fileProgressAt_def js_or_def truthy_def at_index_def)

lemma fileProgressAt_None: "fileProgress d = None \<Longrightarrow> fileProgressAt d i = 0"
  by (simp add: fileProgressAt_def js_or_def truthy_def at_index_def)

lemma updateFile_fields:
  "status (updateFile t d i file)
     = mappedStatus d (fileStatusAt d i) (fileProgressAt d i) (realCurrentLUFSAt d i file)
   \<and> progress (updateFile t d i file) = Some (fileProgressAt d i)
   \<and> currentLUFS (updateFile t d i file) = realCurrentLUFSAt d i file
   \<and> newLUFS (updateFile t d i file)
     = (if status (updateFile t d i file) = Finalizing \<or> status (updateFile t d i file) = Normalized
          \<or> status (updateFile t d i file) = Completed
        then Some t else newLUFS file)"
  by (simp add: updateFile_def Let_def)

lemma pollForUpdates_active:
  "ProgressData.isProcessing d \<Longrightarrow>
   audioFiles (pollForUpdates t (Responded d) s) = activeUpdate t d (audioFiles s)"
  by (simp add: pollForUpdates_def)

lemma double_0_95_below: "double_0_95 < 95 / 100 \<and> 94 / 100 < double_0_95"
  by (simp add: double_0_95_def)

text \<open>
  C8. In a cycle that finds the run active, the entry at an index whose token is
  \<open>Normalizing\<close> becomes \<open>Finalizing\<close> when the progress read for that index is at
  least the source's \<^verbatim>\<open>0.95\<close>, the double 4278419646001971 / 4503599627370496, and
  \<open>Processing\<close> otherwise; the progress read is the array element when there is one.
  The response of the scenario, with \<^verbatim>\<open>0.97\<close> (the double
  4368491638549381 / 4503599627370496) at index 0, makes the first entry of any list
  \<open>Finalizing\<close>.
\<close>

theorem normalizing_token_mapping:
  "(ProgressData.isProcessing d \<and> i < length (audioFiles s) \<and> fileStatuses d = Some m
      \<and> m (toString i) = Some ''Normalizing'' \<longrightarrow>
      status (audioFiles (pollForUpdates t (Responded d) s) ! i)
        = (if fileProgressAt d i \<ge> 4278419646001971 / 4503599627370496
           then Finalizing else Processing))
   \<and> (fileProgress d = Some ps \<and> i < length ps \<longrightarrow> fileProgressAt d i = ps ! i)
   \<and> status (audioFiles (pollForUpdates t
         (Responded \<lparr> ProgressData.isProcessing = True, processedFiles = None,
            fileProgress = Some [4368491638549381 / 4503599627370496],
            fileStatuses = Some [''0'' \<mapsto> ''Normalizing''],
            currentFiles = None \<rparr>) (s\<lparr>audioFiles := file # files\<rparr>)) ! 0) = Finalizing"
proof -
  have gen: "status (audioFiles (pollForUpdates t (Responded d) s) ! i)
        = (if fileProgressAt d i \<ge> 4278419646001971 / 4503599627370496
           then Finalizing else Processing)"
    if "ProgressData.isProcessing d" "i < length (audioFiles s)" "fileStatuses d = Some m"
      "m (toString i) = Some ''Normalizing''"
  proof -
    have "fileStatusAt d i = ''Normalizing''"
      using that by (simp add: fileStatusAt_def)
    then show ?thesis
      using that
      by (simp add: pollForUpdates_active activeUpdate_nth updateFile_fields mappedStatus_def
          double_0_95_def)
  qed
  have raw: "fileProgressAt d i = ps ! i" if "fileProgress d = Some ps" "i < length ps"
    using that by (simp add: fileProgressAt_Some)
  have scen: "status (audioFiles (pollForUpdates t
         (Responded \<lparr> ProgressData.isProcessing = True, processedFiles = None,
            fileProgress = Some [4368491638549381 / 4503599627370496],
            fileStatuses = Some [''0'' \<mapsto> ''Normalizing''],
            currentFiles = None \<rparr>) (s\<lparr>audioFiles := file # files\<rparr>)) ! 0) = Finalizing"
    by (simp add: pollForUpdates_active activeUpdate_nth updateFile_fields mappedStatus_def
        fileStatusAt_def fileProgressAt_Some toString.simps double_0_95_def)
  from gen raw scen show ?thesis by blast
qed

text \<open>Both sides of the threshold, on the session with one selected file: a reported
  \<^verbatim>\<open>0.95\<close>, which is read as the same double as the literal, and the double just below
  it, 8556839292003941 / 9007199254740992.\<close>

theorem normalizing_token_mapping_witness:
  "status (audioFiles (pollForUpdates (-12)
        (Responded (snapshot ''Normalizing'' (4278419646001971 / 4503599627370496)))
      oneFileSession) ! 0) = Finalizing
   \<and> status (audioFiles (pollForUpdates (-12)
        (Responded (snapshot ''Normalizing'' (8556839292003941 / 9007199254740992)))
      oneFileSession) ! 0) = Processing"
proof -
  let ?hi = "4278419646001971 / 4503599627370496 :: rat"
  let ?lo = "8556839292003941 / 9007199254740992 :: rat"
  have len: "0 < length (audioFiles oneFileSession)"
    by (simp add: session_defs example_defs)
  have act: "ProgressData.isProcessing (snapshot ''Normalizing'' p)" for p
    by (simp add: snapshot_def)
  have sts: "fileStatuses (snapshot ''Normalizing'' p) = Some [''0'' \<mapsto> ''Normalizing'']" for p
    by (simp add: snapshot_def)
  have key: "[''0'' \<mapsto> ''Normalizing''] (toString 0) = Some ''Normalizing''"
    by (simp add: toString.simps)
  have prg: "fileProgress (snapshot ''Normalizing'' p) = Some [p] \<and> 0 < length [p]" for p
    by (simp add: snapshot_def)
  note hi = normalizing_token_mapping [where d = "snapshot ''Normalizing'' ?hi"
      and i = 0 and s = oneFileSession and m = "[''0'' \<mapsto> ''Normalizing'']" and t = "-12"
      and ps = "[?hi]"]
  note lo = normalizing_token_mapping [where d = "snapshot ''Normalizing'' ?lo"
      and i = 0 and s = oneFileSession and m = "[''0'' \<mapsto> ''Normalizing'']" and t = "-12"
      and ps = "[?lo]"]
  from hi prg have vhi: "fileProgressAt (snapshot ''Normalizing'' ?hi) 0 = [?hi] ! 0"
    by blast
  from lo prg have vlo: "fileProgressAt (snapshot ''Normalizing'' ?lo) 0 = [?lo] ! 0"
    by blast
  from hi len act sts key
  have "status (audioFiles (pollForUpdates (-12) (Responded (snapshot ''Normalizing'' ?hi))
      oneFileSession) ! 0)
      = (if fileProgressAt (snapshot ''Normalizing'' ?hi) 0 \<ge> 4278419646001971 / 4503599627370496
         then Finalizing else Processing)"
    by blast
  with vhi have a: "status (audioFiles (pollForUpdates (-12)
      (Responded (snapshot ''Normalizing'' ?hi)) oneFileSession) ! 0) = Finalizing"
    by simp
  from lo len act sts key
  have "status (audioFiles (pollForUpdates (-12) (Responded (snapshot ''Normalizing'' ?lo))
      oneFileSession) ! 0)
      = (if fileProgressAt (snapshot ''Normalizing'' ?lo) 0 \<ge> 4278419646001971 / 4503599627370496
         then Finalizing else Processing)"
    by blast
  with vlo have b: "status (audioFiles (pollForUpdates (-12)
      (Responded (snapshot ''Normalizing'' ?lo)) oneFileSession) ! 0) = Processing"
    by simp
  from a b show ?thesis by blast
qed

text \<open>
  C6. The claim asks that the stored progress never decreases within a run and stays in
  \<open>[0,1]\<close>. An active cycle stores what the response holds for the index and compares
  it with nothing: a response with \<open>0.25\<close> after one with \<open>0.5\<close> lowers the stored
  value, and a response with \<open>1.5\<close> stores \<open>1.5\<close>.
\<close>

theorem poll_progress_can_fall_and_leave_range:
  "map progress (audioFiles (run
      [Start (Responded ()), FetchSettles 0 (Responded (snapshot ''Normalizing'' (1 / 2)))]
      oneFileSession)) = [Some (1 / 2)]
   \<and> map progress (audioFiles (run
      [Start (Responded ()), FetchSettles 0 (Responded (snapshot ''Normalizing'' (1 / 2))),
       TimerFires, FetchSettles 0 (Responded (snapshot ''Normalizing'' (1 / 4)))]
      oneFileSession)) = [Some (1 / 4)]
   \<and> map progress (audioFiles (run
      [Start (Responded ()), FetchSettles 0 (Responded (snapshot ''Normalizing'' (3 / 2)))]
      oneFileSession)) = [Some (3 / 2)]"
  by (simp add: session_defs example_defs toString.simps)

text \<open>
  C6 as the code has it. In an active cycle the stored progress of entry \<open>i\<close> is the
  value read from the response for index \<open>i\<close>: the array element, or \<open>0\<close> when the
  array is missing or too short. So over two successive active cycles the stored
  progress does not decrease and lies in \<open>[0,1]\<close> when the values read do so.
\<close>

theorem poll_progress_is_reported_value:
  "(ProgressData.isProcessing d \<and> i < length (audioFiles s) \<longrightarrow>
      progress (audioFiles (pollForUpdates t (Responded d) s) ! i) = Some (fileProgressAt d i))
   \<and> (fileProgress d = Some ps \<longrightarrow> fileProgressAt d i = (if i < length ps then ps ! i else 0))
   \<and> (fileProgress d = None \<longrightarrow> fileProgressAt d i = 0)
   \<and> (ProgressData.isProcessing d \<and> ProgressData.isProcessing d' \<and> i < length (audioFiles s)
        \<and> 0 \<le> fileProgressAt d i \<and> fileProgressAt d i \<le> fileProgressAt d' i
        \<and> fileProgressAt d' i \<le> 1 \<longrightarrow>
      (\<exists>p p'. progress (audioFiles (pollForUpdates t (Responded d) s) ! i) = Some p
         \<and> progress (audioFiles (pollForUpdates t (Responded d')
               (pollForUpdates t (Responded d) s)) ! i) = Some p'
         \<and> 0 \<le> p \<and> p \<le> p' \<and> p' \<le> 1))"
proof -
  have one: "progress (audioFiles (pollForUpdates t (Responded d) s) ! i) = Some (fileProgressAt d i)"
    if "ProgressData.isProcessing d" "i < length (audioFiles s)" for d s
    using that by (simp add: pollForUpdates_active activeUpdate_nth updateFile_fields)
  have two: "\<exists>p p'. progress (audioFiles (pollForUpdates t (Responded d) s) ! i) = Some p
         \<and> progress (audioFiles (pollForUpdates t (Responded d')
               (pollForUpdates t (Responded d) s)) ! i) = Some p'
         \<and> 0 \<le> p \<and> p \<le> p' \<and> p' \<le> 1"
    if h: "ProgressData.isProcessing d" "ProgressData.isProcessing d'" "i < length (audioFiles s)"
      "0 \<le> fileProgressAt d i" "fileProgressAt d i \<le> fileProgressAt d' i"
      "fileProgressAt d' i \<le> 1"
  proof -
    have len: "i < length (audioFiles (pollForUpdates t (Responded d) s))"
      using h by (simp add: pollForUpdates_active)
    from one [OF h(1) h(3)] one [OF h(2) len] h(4-6) show ?thesis by blast
  qed
  from one two fileProgressAt_Some fileProgressAt_None show ?thesis by blast
qed

theorem poll_progress_is_reported_value_witness:
  "progress (audioFiles (pollForUpdates (-12) (Responded (snapshot ''Analyzing'' (1 / 4)))
      oneFileSession) ! 0) = Some (1 / 4)
   \<and> fileProgressAt (snapshot ''Analyzing'' (1 / 4)) 0 = 1 / 4
   \<and> fileProgressAt (snapshot ''Analyzing'' (1 / 4)) 1 = 0
   \<and> (\<exists>p p'. progress (audioFiles (pollForUpdates (-12) (Responded (snapshot ''Analyzing'' (1 / 4)))
          oneFileSession) ! 0) = Some p
        \<and> progress (audioFiles (pollForUpdates (-12) (Responded (snapshot ''Normalizing'' (3 / 4)))
            (pollForUpdates (-12) (Responded (snapshot ''Analyzing'' (1 / 4))) oneFileSession)) ! 0)
            = Some p'
        \<and> 0 \<le> p \<and> p \<le> p' \<and> p' \<le> 1)"
proof -
  let ?d = "snapshot ''Analyzing'' (1 / 4)" and ?d' = "snapshot ''Normalizing'' (3 / 4)"
  have len: "0 < length (audioFiles oneFileSession)"
    by (simp add: session_defs example_defs)
  have act: "ProgressData.isProcessing ?d" "ProgressData.isProcessing ?d'"
    by (simp_all add: snapshot_def)
  have prg: "fileProgress ?d = Some [1 / 4]" "fileProgress ?d' = Some [3 / 4]"
    by (simp_all add: snapshot_def)
  note at0 = poll_progress_is_reported_value [where d = ?d and i = 0 and s = oneFileSession
      and t = "-12" and ps = "[1 / 4]" and d' = ?d']
  note at1 = poll_progress_is_reported_value [where d = ?d and i = 1 and ps = "[1 / 4]"]
  note at0' = poll_progress_is_reported_value [where d = ?d' and i = 0 and ps = "[3 / 4]"]
  from at0 prg(1) have "fileProgressAt ?d 0 = (if 0 < length [1 / 4 :: rat] then [1 / 4] ! 0 else 0)"
    by blast
  then have v0: "fileProgressAt ?d 0 = 1 / 4" by simp
  from at1 prg(1) have "fileProgressAt ?d 1 = (if 1 < length [1 / 4 :: rat] then [1 / 4] ! 1 else 0)"
    by blast
  then have v1: "fileProgressAt ?d 1 = 0" by simp
  from at0' prg(2) have "fileProgressAt ?d' 0 = (if 0 < length [3 / 4 :: rat] then [3 / 4] ! 0 else 0)"
    by blast
  then have v0': "fileProgressAt ?d' 0 = 3 / 4" by simp
  from at0 act(1) len
  have "progress (audioFiles (pollForUpdates (-12) (Responded ?d) oneFileSession) ! 0)
      = Some (fileProgressAt ?d 0)"
    by blast
  with v0 have a: "progress (audioFiles (pollForUpdates (-12) (Responded ?d) oneFileSession) ! 0)
      = Some (1 / 4)"
    by simp
  have rng: "0 \<le> fileProgressAt ?d 0" "fileProgressAt ?d 0 \<le> fileProgressAt ?d' 0"
    "fileProgressAt ?d' 0 \<le> 1"
    by (simp_all add: v0 v0')
  from at0 act len rng
  have b: "\<exists>p p'. progress (audioFiles (pollForUpdates (-12) (Responded ?d) oneFileSession) ! 0) = Some p
        \<and> progress (audioFiles (pollForUpdates (-12) (Responded ?d')
            (pollForUpdates (-12) (Responded ?d) oneFileSession)) ! 0) = Some p'
        \<and> 0 \<le> p \<and> p \<le> p' \<and> p' \<le> 1"
    by blast
  from a v0 v1 b show ?thesis by blast
qed

subsection \<open>The target loudness of an entry\<close>

























subsection \<open>License keys and the lockout\<close>

lemma startsWith_prefix: "startsWith s p = prefix p s"
  by (auto simp: startsWith_def prefix_def) (metis append_eq_conv_conj)

lemma trim_Nil_iff: "trim s = [] \<longleftrightarrow> (\<forall>c\<in>set s. isWhiteSpace c)"
proof
  assume "trim s = []"
  then have allws: "\<forall>c\<in>set (dropWhile isWhiteSpace s). isWhiteSpace c"
    by (simp add: trim_def)
  have "dropWhile isWhiteSpace s = []"
  proof (rule ccontr)
    assume ne: "dropWhile isWhiteSpace s \<noteq> []"
    then have "\<not> isWhiteSpace (hd (dropWhile isWhiteSpace s))"
      by (rule hd_dropWhile)
    moreover from ne have "hd (dropWhile isWhiteSpace s) \<in> set (dropWhile isWhiteSpace s)"
      by simp
    ultimately show False using allws by blast
  qed
  then show "\<forall>c\<in>set s. isWhiteSpace c" by simp
next
  assume "\<forall>c\<in>set s. isWhiteSpace c"
  then have dw: "dropWhile isWhiteSpace s = []" by simp
  show "trim s = []" unfolding trim_def dw by simp
qed

lemma valid_key_not_blank:
  assumes "isValidLicenseKeyFormat key" shows "trim key \<noteq> []"
proof -
  from assms have "prefix ''RAFILIS-'' key"
    by (simp add: isValidLicenseKeyFormat_def startsWith_prefix)
  then obtain rest where "key = ''RAFILIS-'' @ rest" by (auto simp: prefix_def)
  then have "\<not> (\<forall>c\<in>set key. isWhiteSpace c)" by (simp add: isWhiteSpace_def)
  then show ?thesis by (simp add: trim_Nil_iff)
qed

text \<open>
  C9. \<^verbatim>\<open>isValidLicenseKeyFormat\<close> accepts exactly the keys that have the prefix
  \<open>RAFILIS-\<close> and at least 20 characters; of the three keys of the scenario it accepts
  the first only. \<^verbatim>\<open>activateLicense\<close> with a key that is empty after trimming, or that
  the format check refuses, makes no request: its result does not depend on what a
  request would have returned, the attempt counter and the lockout stay as they were, and
  an error message is set.
\<close>

theorem license_key_format:
  "isValidLicenseKeyFormat key = (prefix ''RAFILIS-'' key \<and> 20 \<le> length key)
   \<and> isValidLicenseKeyFormat ''RAFILIS-AAAAAAAAAAAA''
   \<and> length ''RAFILIS-AAAAAAAAAAAA'' = 20
   \<and> \<not> isValidLicenseKeyFormat ''RAFILIS-123''
   \<and> \<not> isValidLicenseKeyFormat ''BADPREFIX-AAAAAAAAAAAA''
   \<and> (trim (licenseKey a) = [] \<or> \<not> isValidLicenseKeyFormat (licenseKey a) \<longrightarrow>
        snd (activateLicense now r later a) = False
        \<and> activateLicense now r later a = activateLicense now r' later' a
        \<and> activationAttempts (fst (activateLicense now r later a)) = activationAttempts a
        \<and> lockoutUntil (fst (activateLicense now r later a)) = lockoutUntil a
        \<and> activationError (fst (activateLicense now r later a)) \<noteq> [])"
proof -
  have fmt: "isValidLicenseKeyFormat key = (prefix ''RAFILIS-'' key \<and> 20 \<le> length key)"
    by (simp add: isValidLicenseKeyFormat_def startsWith_prefix)
  have ex: "isValidLicenseKeyFormat ''RAFILIS-AAAAAAAAAAAA'' \<and> length ''RAFILIS-AAAAAAAAAAAA'' = 20
     \<and> \<not> isValidLicenseKeyFormat ''RAFILIS-123''
     \<and> \<not> isValidLicenseKeyFormat ''BADPREFIX-AAAAAAAAAAAA''"
    by (simp add: isValidLicenseKeyFormat_def startsWith_def)
  have loc: "snd (activateLicense now r later a) = False
        \<and> activateLicense now r later a = activateLicense now r' later' a
        \<and> activationAttempts (fst (activateLicense now r later a)) = activationAttempts a
        \<and> lockoutUntil (fst (activateLicense now r later a)) = lockoutUntil a
        \<and> activationError (fst (activateLicense now r later a)) \<noteq> []"
    if "trim (licenseKey a) = [] \<or> \<not> isValidLicenseKeyFormat (licenseKey a)"
    using that by (auto simp: activateLicense_def Let_def)
  from fmt ex loc show ?thesis by blast
qed

text \<open>A key of blanks and the short key of the scenario, each against a request that
  would have been accepted.\<close>

theorem license_key_format_witness:
  "trim (licenseKey (typeKey ''   '' initialActivation)) = []
   \<and> snd (activateLicense 1000 Accepted 1200 (typeKey ''   '' initialActivation)) = False
   \<and> \<not> isValidLicenseKeyFormat (licenseKey (typeKey ''RAFILIS-123'' initialActivation))
   \<and> snd (activateLicense 1000 Accepted 1200 (typeKey ''RAFILIS-123'' initialActivation)) = False
   \<and> activationError (fst (activateLicense 1000 Accepted 1200
        (typeKey ''RAFILIS-123'' initialActivation))) = ''Please enter a valid license key.''"
proof -
  have blank: "trim (licenseKey (typeKey ''   '' initialActivation)) = []"
    by (simp add: typeKey_def trim_def isWhiteSpace_def)
  have short: "\<not> isValidLicenseKeyFormat (licenseKey (typeKey ''RAFILIS-123'' initialActivation))"
    using license_key_format [of "''RAFILIS-123''"] by (simp add: typeKey_def)
  from license_key_format [of "''x''" "typeKey ''   '' initialActivation" 1000 Accepted 1200] blank
  have a: "snd (activateLicense 1000 Accepted 1200 (typeKey ''   '' initialActivation)) = False"
    by blast
  from license_key_format [of "''x''" "typeKey ''RAFILIS-123'' initialActivation" 1000 Accepted 1200]
    short
  have b: "snd (activateLicense 1000 Accepted 1200 (typeKey ''RAFILIS-123'' initialActivation)) = False"
    by blast
  have c: "activationError (fst (activateLicense 1000 Accepted 1200
        (typeKey ''RAFILIS-123'' initialActivation))) = ''Please enter a valid license key.''"
    by (simp add: activation_defs initialActivation_def)
  from blank a short b c show ?thesis by blast
qed

lemma failed_attempt_state:
  assumes "isValidLicenseKeyFormat key" and "r \<noteq> Accepted"
    and "lockoutUntil a \<le> now" and "activationAttempts a < 3"
  shows "activationAttempts (attempt key now r later a) = activationAttempts a + 1"
    and "lockoutUntil (attempt key now r later a)
           = (if activationAttempts a + 1 \<ge> 3 then later + 60000 else lockoutUntil a)"
    and "snd (activateLicense now r later (typeKey key a))"
  using assms valid_key_not_blank [OF assms(1)]
  by (cases r; simp add: attempt_def activateLicense_def typeKey_def canAttemptActivation_def
      failedAttempt_def Let_def)+

lemma canAttempt_locked:
  "now < lockoutUntil a \<Longrightarrow> canAttemptActivation now a = (False, a)"
  by (simp add: canAttemptActivation_def)

lemma canAttempt_expired:
  "lockoutUntil a \<le> now \<Longrightarrow> activationAttempts a \<ge> 3 \<Longrightarrow>
   canAttemptActivation now a = (True, a\<lparr>activationAttempts := 0, lockoutUntil := 0\<rparr>)"
  by (simp add: canAttemptActivation_def)

lemma countdownTick_before:
  "now < lockoutUntil a \<Longrightarrow> 0 < lockoutUntil a \<Longrightarrow>
   activationAttempts (countdownTick now a) = activationAttempts a
   \<and> lockoutUntil (countdownTick now a) = lockoutUntil a"
proof -
  assume a: "now < lockoutUntil a" "0 < lockoutUntil a"
  then have "(now - lockoutUntil a) div 1000 < 0"
    by (simp add: div_neg_pos_less0)
  then have "nat (max 0 (- ((now - lockoutUntil a) div 1000))) \<noteq> 0" by simp
  then show ?thesis using a by (simp add: countdownTick_def Let_def)
qed

lemma countdownTick_after:
  "lockoutUntil a \<le> now \<Longrightarrow> 0 < lockoutUntil a \<Longrightarrow>
   activationAttempts (countdownTick now a) = 0 \<and> lockoutUntil (countdownTick now a) = 0"
proof -
  assume a: "lockoutUntil a \<le> now" "0 < lockoutUntil a"
  then have "0 \<le> (now - lockoutUntil a) div 1000"
    by (simp add: pos_imp_zdiv_nonneg_iff)
  then have "nat (max 0 (- ((now - lockoutUntil a) div 1000))) = 0" by simp
  then show ?thesis using a by (simp add: countdownTick_def Let_def)
qed

text \<open>
  C3. From no failed attempts and no lockout, three attempts with well-formed keys that
  all fail (a rejection or an exception), made at times \<open>t1\<close>, \<open>t2\<close>, \<open>t3\<close> and settled
  at \<open>u1\<close>, \<open>u2\<close>, \<open>u3\<close>: after the second there is no lockout yet; after the third the
  counter is 3 and \<open>lockoutUntil\<close> is \<open>u3\<close> plus 60 seconds. From then on
  \<^verbatim>\<open>canAttemptActivation\<close> answers false, and changes nothing, at every time before
  \<open>lockoutUntil\<close>; at every time from \<open>lockoutUntil\<close> on it answers true and sets the
  counter and the lockout to 0. The countdown interval does not change this: a tick before
  \<open>lockoutUntil\<close> keeps the lockout, and after a tick at or past it the query answers
  true with counter and lockout at 0.
\<close>

theorem lockout_after_three_failures:
  assumes start: "activationAttempts a0 = 0" "lockoutUntil a0 = 0"
    and keys: "isValidLicenseKeyFormat k1" "isValidLicenseKeyFormat k2" "isValidLicenseKeyFormat k3"
    and fails: "r1 \<noteq> Accepted" "r2 \<noteq> Accepted" "r3 \<noteq> Accepted"
    and times: "0 \<le> t1" "0 \<le> t2" "0 \<le> t3" "0 \<le> u3"
    and a3: "a3 = attempt k3 t3 r3 u3 (attempt k2 t2 r2 u2 (attempt k1 t1 r1 u1 a0))"
  shows "activationAttempts (attempt k2 t2 r2 u2 (attempt k1 t1 r1 u1 a0)) = 2
       \<and> lockoutUntil (attempt k2 t2 r2 u2 (attempt k1 t1 r1 u1 a0)) = 0
       \<and> activationAttempts a3 = 3 \<and> lockoutUntil a3 = u3 + 60 * 1000
       \<and> (\<forall>t. t < lockoutUntil a3 \<longrightarrow> canAttemptActivation t a3 = (False, a3))
       \<and> (\<forall>t. lockoutUntil a3 \<le> t \<longrightarrow>
            canAttemptActivation t a3 = (True, a3\<lparr>activationAttempts := 0, lockoutUntil := 0\<rparr>))
       \<and> (\<forall>u t. u < lockoutUntil a3 \<and> t < lockoutUntil a3 \<longrightarrow>
            fst (canAttemptActivation t (countdownTick u a3)) = False)
       \<and> (\<forall>u t. lockoutUntil a3 \<le> u \<and> u \<le> t \<longrightarrow>
            fst (canAttemptActivation t (countdownTick u a3)) = True
            \<and> activationAttempts (snd (canAttemptActivation t (countdownTick u a3))) = 0
            \<and> lockoutUntil (snd (canAttemptActivation t (countdownTick u a3))) = 0)"
proof -
  let ?a1 = "attempt k1 t1 r1 u1 a0"
  let ?a2 = "attempt k2 t2 r2 u2 ?a1"
  have a1: "activationAttempts ?a1 = 1" "lockoutUntil ?a1 = 0"
    using failed_attempt_state(1,2) [OF keys(1) fails(1), of a0 t1 u1] start times by simp_all
  have a2: "activationAttempts ?a2 = 2" "lockoutUntil ?a2 = 0"
    using failed_attempt_state(1,2) [OF keys(2) fails(2), of ?a1 t2 u2] a1 times by simp_all
  have a3': "activationAttempts a3 = 3" "lockoutUntil a3 = u3 + 60 * 1000"
    using failed_attempt_state(1,2) [OF keys(3) fails(3), of ?a2 t3 u3] a2 times a3 by simp_all
  have pos: "0 < lockoutUntil a3" using a3' times by simp
  have locked: "\<forall>t. t < lockoutUntil a3 \<longrightarrow> canAttemptActivation t a3 = (False, a3)"
    by (simp add: canAttempt_locked)
  have expired: "\<forall>t. lockoutUntil a3 \<le> t \<longrightarrow>
            canAttemptActivation t a3 = (True, a3\<lparr>activationAttempts := 0, lockoutUntil := 0\<rparr>)"
    using a3' by (simp add: canAttempt_expired)
  have tick_locked: "\<forall>u t. u < lockoutUntil a3 \<and> t < lockoutUntil a3 \<longrightarrow>
            fst (canAttemptActivation t (countdownTick u a3)) = False"
    using countdownTick_before [OF _ pos] by (simp add: canAttemptActivation_def)
  have tick_expired: "\<forall>u t. lockoutUntil a3 \<le> u \<and> u \<le> t \<longrightarrow>
            fst (canAttemptActivation t (countdownTick u a3)) = True
            \<and> activationAttempts (snd (canAttemptActivation t (countdownTick u a3))) = 0
            \<and> lockoutUntil (snd (canAttemptActivation t (countdownTick u a3))) = 0"
  proof (intro allI impI)
    fix u t assume h: "lockoutUntil a3 \<le> u \<and> u \<le> t"
    then have z: "activationAttempts (countdownTick u a3) = 0" "lockoutUntil (countdownTick u a3) = 0"
      using countdownTick_after [OF _ pos, of u] by simp_all
    from h pos have "0 \<le> t" by linarith
    with z show "fst (canAttemptActivation t (countdownTick u a3)) = True
            \<and> activationAttempts (snd (canAttemptActivation t (countdownTick u a3))) = 0
            \<and> lockoutUntil (snd (canAttemptActivation t (countdownTick u a3))) = 0"
      by (simp add: canAttemptActivation_def)
  qed
  from a2 a3' locked expired tick_locked tick_expired show ?thesis by blast
qed

text \<open>The three failures of \<open>lockedOut\<close>: the lockout ends at 63400 ms.\<close>

theorem lockout_after_three_failures_witness:
  "activationAttempts initialActivation = 0 \<and> lockoutUntil initialActivation = 0
   \<and> isValidLicenseKeyFormat ''RAFILIS-AAAAAAAAAAAA''
   \<and> activationAttempts lockedOut = 3 \<and> lockoutUntil lockedOut = 63400
   \<and> canAttemptActivation 63399 lockedOut = (False, lockedOut)
   \<and> canAttemptActivation 63400 lockedOut
       = (True, lockedOut\<lparr>activationAttempts := 0, lockoutUntil := 0\<rparr>)
   \<and> fst (canAttemptActivation 63399 (countdownTick 63000 lockedOut)) = False
   \<and> fst (canAttemptActivation 64500 (countdownTick 64000 lockedOut)) = True"
proof -
  have s: "activationAttempts initialActivation = 0" "lockoutUntil initialActivation = 0"
    by (simp_all add: initialActivation_def)
  have k: "isValidLicenseKeyFormat ''RAFILIS-AAAAAAAAAAAA''"
    by (simp add: isValidLicenseKeyFormat_def startsWith_def)
  have f: "Rejected (Some ''Unknown key'') \<noteq> Accepted" "Thrown NetworkError \<noteq> Accepted"
    "Rejected None \<noteq> Accepted"
    by simp_all
  have t: "(0::int) \<le> 1000" "(0::int) \<le> 2000" "(0::int) \<le> 3000" "(0::int) \<le> 3400"
    by simp_all
  note inst = lockout_after_three_failures [OF s k k k f t lockedOut_def]
  from inst have n: "activationAttempts lockedOut = 3" and l: "lockoutUntil lockedOut = 63400"
    by simp_all
  from inst l have b: "canAttemptActivation 63399 lockedOut = (False, lockedOut)"
    by simp
  from inst l have c: "canAttemptActivation 63400 lockedOut
       = (True, lockedOut\<lparr>activationAttempts := 0, lockoutUntil := 0\<rparr>)"
    by simp
  from inst l have d: "fst (canAttemptActivation 63399 (countdownTick 63000 lockedOut)) = False"
    by simp
  from inst l have e: "fst (canAttemptActivation 64500 (countdownTick 64000 lockedOut)) = True"
    by simp
  from s k n l b c d e show ?thesis by blast
qed

end
